theory Spec2Isabelle
  imports Main "HOL-Library.AList"
begin

section \<open>Data model\<close>

text \<open>
  The backend stores two collections this development is about: items
  (\<^verbatim>\<open>models/Item.js\<close>) and claims (\<^verbatim>\<open>models/Claim.js\<close>). A document is a record
  of the fields its schema declares, plus the \<^verbatim>\<open>createdAt\<close> timestamp the queries sort
  by. An enum-validated string field is a datatype of its admitted values. Object
  identifiers and user identifiers are natural numbers, dates are milliseconds as
  natural numbers, and strings are lists of characters.

  A collection is an association list from \<^verbatim>\<open>_id\<close> to document, in insertion order.
  \<^verbatim>\<open>findById\<close> is \<open>map_of\<close>, saving a loaded document is \<open>AList.update\<close> at its
  \<^verbatim>\<open>_id\<close>, \<^verbatim>\<open>findByIdAndDelete\<close> is \<open>AList.delete\<close>, and an insert appends under the
  next unused identifier, which the store record carries as \<open>nextId\<close>.

  Scope. Requests are handled one after the other. User documents are not part of the
  store, so a response carries a claim or an item without the populated name and
  address of its users. The \<^verbatim>\<open>updatedAt\<close> timestamp the store maintains by itself is
  left out. A save of a document that passed the handler's validation succeeds. A
  character is a code unit below 256, and the length of a string is its number of
  characters. A counter is a JavaScript number that holds a natural number.
\<close>

type_synonym oid = nat

datatype item_type = Lost | Found

datatype item_status = Active | Resolved | Archived

datatype claim_status = Pending | Approved | Rejected

record item =
  title :: string
  description :: string
  type :: item_type
  category :: string
  location :: string
  date :: nat
  image :: "string option"
  contactInfo :: "string option"
  createdBy :: oid
  status :: item_status
  isActive :: bool
  views :: nat
  tags :: "string list"
  createdAt :: nat

record claim =
  item :: oid
  claimedBy :: oid
  message :: string
  status :: claim_status
  adminNotes :: "string option"
  resolvedAt :: "nat option"
  resolvedBy :: "oid option"
  createdAt :: nat

record db =
  items :: "(oid \<times> item) list"
  claims :: "(oid \<times> claim) list"
  nextId :: oid

text \<open>
  A route parameter is a string that the store casts to an object identifier; the cast
  of a malformed string raises \<^verbatim>\<open>CastError\<close>, which every handler catches.
\<close>

datatype id_param = ObjectId oid | Malformed

text \<open>
  A handler answers with a status code and a JSON body (\<open>Json\<close>), or with a status
  code and the \<^verbatim>\<open>message\<close> of an error body (\<open>Failure\<close>).
\<close>

datatype 'a response = Json nat 'a | Failure nat string

definition findById :: "(oid \<times> 'a) list \<Rightarrow> oid \<Rightarrow> 'a option" where
  "findById coll k = map_of coll k"

definition save_claim :: "db \<Rightarrow> oid \<Rightarrow> claim \<Rightarrow> db" where
  "save_claim s k c = s\<lparr>claims := AList.update k c (claims s)\<rparr>"

definition save_item :: "db \<Rightarrow> oid \<Rightarrow> item \<Rightarrow> db" where
  "save_item s k it = s\<lparr>items := AList.update k it (items s)\<rparr>"

section \<open>Request validation\<close>

text \<open>
  The validators' \<^verbatim>\<open>trim()\<close> sanitizer and the schemas' \<^verbatim>\<open>trim: true\<close> setter strip
  white space from both ends of a string. JavaScript's white space below 256 is the
  space, the tabulator, line feed, vertical tabulator, form feed, carriage return, and
  the no-break space U+00A0.
\<close>

definition isSpace :: "char \<Rightarrow> bool" where
  "isSpace c \<longleftrightarrow>
     c \<in> set [CHR '' '', CHR 0x09, CHR 0x0A, CHR 0x0B, CHR 0x0C, CHR 0x0D, CHR 0xA0]"

definition trim :: "string \<Rightarrow> string" where
  "trim s = rev (dropWhile isSpace (rev (dropWhile isSpace s)))"

section \<open>Claim documents: the pre-save hook, approve and reject\<close>

text \<open>
  \<^verbatim>\<open>claimSchema.pre('save')\<close>: when the status was modified and is not pending, the
  hook stamps \<^verbatim>\<open>resolvedAt\<close>. The first argument is the document as loaded, the second
  the document being saved.
\<close>

definition pre_save :: "claim \<Rightarrow> claim \<Rightarrow> nat \<Rightarrow> claim" where
  "pre_save loaded c now =
     (if claim.status c \<noteq> claim.status loaded \<and> claim.status c \<noteq> Pending
      then c\<lparr>resolvedAt := Some now\<rparr> else c)"

definition approve :: "claim \<Rightarrow> oid \<Rightarrow> nat \<Rightarrow> claim" where
  "approve c approvedBy now =
     pre_save c (c\<lparr>claim.status := Approved, resolvedBy := Some approvedBy,
                   resolvedAt := Some now\<rparr>) now"

text \<open>
  \<^verbatim>\<open>reject(rejectedBy, notes = '')\<close> stores the notes only when they are truthy, that
  is, a non-empty string.
\<close>

definition reject :: "claim \<Rightarrow> oid \<Rightarrow> string \<Rightarrow> nat \<Rightarrow> claim" where
  "reject c rejectedBy notes now =
     pre_save c
       (c\<lparr>claim.status := Rejected, resolvedBy := Some rejectedBy, resolvedAt := Some now,
           adminNotes := (if notes \<noteq> [] then Some (trim notes) else adminNotes c)\<rparr>) now"

section \<open>Claim routes\<close>

subsection \<open>PUT /claims/:claimId\<close>

text \<open>
  The handlers of \<^verbatim>\<open>routes/claims.js\<close> run behind the \<^verbatim>\<open>auth\<close> middleware; \<open>userId\<close>
  is \<^verbatim>\<open>req.user.userId\<close> of the verified token, and \<open>now\<close> is the clock read by
  \<^verbatim>\<open>new Date()\<close> while the request is handled.

  The body carries \<^verbatim>\<open>status\<close> and the optional \<^verbatim>\<open>adminNotes\<close>. The sanitizer replaces
  the notes by their trimmed value.
\<close>

definition put_claim_valid :: "string \<Rightarrow> string option \<Rightarrow> bool" where
  "put_claim_valid st notes \<longleftrightarrow>
     st \<in> set [''approved'', ''rejected''] \<and>
     (case notes of None \<Rightarrow> True | Some n \<Rightarrow> length (trim n) \<le> 500)"

definition put_claim ::
  "db \<Rightarrow> nat \<Rightarrow> oid \<Rightarrow> id_param \<Rightarrow> string \<Rightarrow> string option
     \<Rightarrow> (string \<times> oid \<times> claim) response \<times> db" where
  "put_claim s now userId claimId st notes =
     (if \<not> put_claim_valid st notes then (Failure 400 ''Validation failed'', s)
      else case claimId of
        Malformed \<Rightarrow> (Failure 400 ''Invalid claim ID'', s)
      | ObjectId k \<Rightarrow>
         (case findById (claims s) k of
            None \<Rightarrow> (Failure 404 ''Claim not found'', s)
          | Some c \<Rightarrow>
             (case findById (items s) (claim.item c) of
                None \<Rightarrow> (Failure 500 ''Server error updating claim'', s)
              | Some it \<Rightarrow>
                 if item.createdBy it \<noteq> userId
                 then (Failure 403 ''Not authorized to update this claim'', s)
                 else if claim.status c \<noteq> Pending
                 then (Failure 400 ''Claim has already been processed'', s)
                 else if st = ''approved''
                 then
                   let c' = approve c userId now;
                       s' = save_claim s k c';
                       s'' = save_item s' (claim.item c) (it\<lparr>item.status := Resolved\<rparr>)
                   in (Json 200 (''Claim '' @ st @ '' successfully'', k, c'), s'')
                 else
                   let c' = reject c userId (case notes of None \<Rightarrow> [] | Some n \<Rightarrow> trim n) now;
                       s' = save_claim s k c'
                   in (Json 200 (''Claim '' @ st @ '' successfully'', k, c'), s'))))"

subsection \<open>POST /claims/:itemId\<close>

text \<open>
  The body carries \<^verbatim>\<open>message\<close>; a missing message validates as the empty string.
  The new document takes the schema's defaults: pending, with no notes and no
  resolution. The handler looks for an earlier claim of the same user on the same item
  itself, before it inserts.
\<close>

definition post_claim_valid :: "string \<Rightarrow> bool" where
  "post_claim_valid msg \<longleftrightarrow> 20 \<le> length (trim msg) \<and> length (trim msg) \<le> 1000"

definition findOne_claim :: "db \<Rightarrow> oid \<Rightarrow> oid \<Rightarrow> (oid \<times> claim) option" where
  "findOne_claim s itemId userId =
     find (\<lambda>(k, c). claim.item c = itemId \<and> claimedBy c = userId) (claims s)"

definition new_claim :: "oid \<Rightarrow> oid \<Rightarrow> string \<Rightarrow> nat \<Rightarrow> claim" where
  "new_claim itemId userId msg now =
     \<lparr>claim.item = itemId, claimedBy = userId, message = trim msg, claim.status = Pending,
      adminNotes = None, resolvedAt = None, resolvedBy = None, claim.createdAt = now\<rparr>"

definition insert_claim :: "db \<Rightarrow> claim \<Rightarrow> oid \<times> db" where
  "insert_claim s c =
     (nextId s, s\<lparr>claims := claims s @ [(nextId s, c)], nextId := Suc (nextId s)\<rparr>)"

definition post_claim ::
  "db \<Rightarrow> nat \<Rightarrow> oid \<Rightarrow> id_param \<Rightarrow> string \<Rightarrow> (string \<times> oid \<times> claim) response \<times> db" where
  "post_claim s now userId itemId msg =
     (if \<not> post_claim_valid msg then (Failure 400 ''Validation failed'', s)
      else case itemId of
        Malformed \<Rightarrow> (Failure 400 ''Invalid item ID'', s)
      | ObjectId i \<Rightarrow>
         (case findById (items s) i of
            None \<Rightarrow> (Failure 404 ''Item not found or no longer available'', s)
          | Some it \<Rightarrow>
             if \<not> isActive it \<or> item.status it \<noteq> Active
             then (Failure 404 ''Item not found or no longer available'', s)
             else if item.createdBy it = userId
             then (Failure 400 ''You cannot claim your own item'', s)
             else
               (case findOne_claim s i userId of
                  Some existingClaim \<Rightarrow>
                    (Failure 400 ''You have already submitted a claim for this item'', s)
                | None \<Rightarrow>
                    let c = new_claim i userId (trim msg) now;
                        (k, s') = insert_claim s c
                    in (Json 201 (''Claim submitted successfully'', k, c), s'))))"

subsection \<open>GET /claims/pending\<close>

text \<open>
  \<^verbatim>\<open>getPendingClaimsForUser\<close> finds the pending claims and populates each claim's item
  under the match \<^verbatim>\<open>createdBy: userId\<close>, with the selected fields only; a reference
  that finds no matching item populates as \<^verbatim>\<open>null\<close>. The result is sorted by
  \<^verbatim>\<open>createdAt\<close>, newest first. The handler then drops the claims whose item is null.
\<close>

type_synonym item_summary = "oid \<times> string \<times> string \<times> item_type \<times> string \<times> nat \<times> string option"

definition select_summary :: "oid \<Rightarrow> item \<Rightarrow> item_summary" where
  "select_summary k it =
     (k, title it, description it, item.type it, location it, date it, image it)"

definition populate_item_match :: "db \<Rightarrow> oid \<Rightarrow> claim \<Rightarrow> item_summary option" where
  "populate_item_match s userId c =
     (case findById (items s) (claim.item c) of
        None \<Rightarrow> None
      | Some it \<Rightarrow>
          if item.createdBy it = userId then Some (select_summary (claim.item c) it)
          else None)"

definition sort_desc :: "('a \<Rightarrow> nat) \<Rightarrow> 'a list \<Rightarrow> 'a list" where
  "sort_desc f xs = rev (sort_key f xs)"

definition getPendingClaimsForUser ::
  "db \<Rightarrow> oid \<Rightarrow> (oid \<times> claim \<times> item_summary option) list" where
  "getPendingClaimsForUser s userId =
     sort_desc (\<lambda>(k, c, p). claim.createdAt c)
       (map (\<lambda>(k, c). (k, c, populate_item_match s userId c))
          (filter (\<lambda>(k, c). claim.status c = Pending) (claims s)))"

definition get_pending ::
  "db \<Rightarrow> oid \<Rightarrow> (oid \<times> claim \<times> item_summary option) list response \<times> db" where
  "get_pending s userId =
     (let claims = getPendingClaimsForUser s userId;
          validClaims = filter (\<lambda>(k, c, p). p \<noteq> None) claims
      in (Json 200 validClaims, s))"

subsection \<open>DELETE /claims/:claimId\<close>

definition delete_claim :: "db \<Rightarrow> oid \<Rightarrow> id_param \<Rightarrow> string response \<times> db" where
  "delete_claim s userId claimId =
     (case claimId of
        Malformed \<Rightarrow> (Failure 400 ''Invalid claim ID'', s)
      | ObjectId k \<Rightarrow>
         (case findById (claims s) k of
            None \<Rightarrow> (Failure 404 ''Claim not found'', s)
          | Some c \<Rightarrow>
             if claimedBy c \<noteq> userId
             then (Failure 403 ''Not authorized to delete this claim'', s)
             else if claim.status c \<noteq> Pending
             then (Failure 400 ''Cannot delete processed claims'', s)
             else (Json 200 ''Claim deleted successfully'',
                   s\<lparr>claims := AList.delete k (claims s)\<rparr>)))"

section \<open>Item queries and routes\<close>

subsection \<open>GET /items\<close>

text \<open>
  The listing delegates three things to the store and the runtime, taken here as
  parameters: the case-insensitive regular expression built from the \<^verbatim>\<open>location\<close>
  parameter (\<open>None\<close> when the pattern does not compile), the text index search, and
  \<^verbatim>\<open>new Date(string)\<close> (\<open>None\<close> for an invalid date). A query the store refuses
  rejects the promise, and the handler answers 500.

  \<^verbatim>\<open>page\<close> and \<^verbatim>\<open>limit\<close> are the integers their strings denote.
\<close>

record engine =
  regex :: "string \<Rightarrow> (string \<Rightarrow> bool) option"
  textSearch :: "string \<Rightarrow> item \<Rightarrow> bool"
  parseDate :: "string \<Rightarrow> nat option"

record filters =
  type :: "string option"
  category :: "string option"
  location :: "string option"
  search :: "string option"
  dateFrom :: "string option"
  dateTo :: "string option"

record query = filters +
  page :: "int option"
  limit :: "int option"

definition type_name :: "item_type \<Rightarrow> string" where
  "type_name t = (case t of Lost \<Rightarrow> ''lost'' | Found \<Rightarrow> ''found'')"

definition categories :: "string list" where
  "categories = [''Electronics'', ''Clothing'', ''Accessories'', ''Keys'', ''Documents'',
                 ''Bags'', ''Sports'', ''Other'']"

text \<open>A JavaScript string is truthy when it is defined and not empty.\<close>

definition truthy :: "string option \<Rightarrow> bool" where
  "truthy v \<longleftrightarrow> (case v of None \<Rightarrow> False | Some x \<Rightarrow> x \<noteq> [])"

text \<open>
  The conditions \<^verbatim>\<open>getFilteredItems\<close> adds to \<^verbatim>\<open>{ isActive: true, status: 'active' }\<close>,
  each as a predicate on items, or \<open>None\<close> when the store refuses the condition.
\<close>

definition location_cond :: "engine \<Rightarrow> filters \<Rightarrow> (item \<Rightarrow> bool) option" where
  "location_cond E f =
     (if truthy (filters.location f)
      then (case regex E (the (filters.location f)) of
              None \<Rightarrow> None
            | Some m \<Rightarrow> Some (\<lambda>it. m (item.location it)))
      else Some (\<lambda>it. True))"

definition date_bound :: "engine \<Rightarrow> string option \<Rightarrow> (nat \<Rightarrow> nat \<Rightarrow> bool) \<Rightarrow> (item \<Rightarrow> bool) option" where
  "date_bound E v cmp =
     (if truthy v
      then (case parseDate E (the v) of
              None \<Rightarrow> None
            | Some d \<Rightarrow> Some (\<lambda>it. cmp (date it) d))
      else Some (\<lambda>it. True))"

definition matches :: "engine \<Rightarrow> filters \<Rightarrow> (item \<Rightarrow> bool) option" where
  "matches E f =
     (case location_cond E f of
        None \<Rightarrow> None
      | Some loc \<Rightarrow>
         (case date_bound E (dateFrom f) (\<lambda>x d. d \<le> x) of
            None \<Rightarrow> None
          | Some gte \<Rightarrow>
             (case date_bound E (dateTo f) (\<lambda>x d. x \<le> d) of
                None \<Rightarrow> None
              | Some lte \<Rightarrow>
                 Some (\<lambda>it.
                   isActive it \<and> item.status it = Active \<and>
                   (if truthy (filters.type f) \<and> filters.type f \<noteq> Some ''all''
                    then type_name (item.type it) = the (filters.type f) else True) \<and>
                   (if truthy (filters.category f) \<and> filters.category f \<noteq> Some ''all''
                    then item.category it = the (filters.category f) else True) \<and>
                   loc it \<and>
                   (if truthy (search f) then textSearch E (the (search f)) it else True) \<and>
                   gte it \<and> lte it))))"

definition claimsCount :: "db \<Rightarrow> oid \<Rightarrow> nat" where
  "claimsCount s k = length (filter (\<lambda>(j, c). claim.item c = k) (claims s))"

definition getFilteredItems :: "engine \<Rightarrow> db \<Rightarrow> filters \<Rightarrow> (oid \<times> item \<times> nat) list option" where
  "getFilteredItems E s f =
     (case matches E f of
        None \<Rightarrow> None
      | Some P \<Rightarrow>
         Some (sort_desc (\<lambda>(k, it, n). item.createdAt it)
                 (map (\<lambda>(k, it). (k, it, claimsCount s k))
                    (filter (\<lambda>(k, it). P it) (items s)))))"

text \<open>
  \<^verbatim>\<open>countDocuments\<close> is given the same conditions, spelled out again in the handler;
  there the type and category conditions are guarded by truthiness alone.
\<close>

definition count_matches :: "engine \<Rightarrow> filters \<Rightarrow> (item \<Rightarrow> bool) option" where
  "count_matches E f =
     (case location_cond E f of
        None \<Rightarrow> None
      | Some loc \<Rightarrow>
         (case date_bound E (dateFrom f) (\<lambda>x d. d \<le> x) of
            None \<Rightarrow> None
          | Some gte \<Rightarrow>
             (case date_bound E (dateTo f) (\<lambda>x d. x \<le> d) of
                None \<Rightarrow> None
              | Some lte \<Rightarrow>
                 Some (\<lambda>it.
                   isActive it \<and> item.status it = Active \<and>
                   (if truthy (filters.type f)
                    then type_name (item.type it) = the (filters.type f) else True) \<and>
                   (if truthy (filters.category f)
                    then item.category it = the (filters.category f) else True) \<and>
                   loc it \<and>
                   (if truthy (search f) then textSearch E (the (search f)) it else True) \<and>
                   gte it \<and> lte it))))"

definition countDocuments :: "engine \<Rightarrow> db \<Rightarrow> filters \<Rightarrow> nat option" where
  "countDocuments E s f =
     (case count_matches E f of
        None \<Rightarrow> None
      | Some P \<Rightarrow> Some (length (filter (\<lambda>(k, it). P it) (items s))))"

definition get_items_valid :: "query \<Rightarrow> bool" where
  "get_items_valid q \<longleftrightarrow>
     (case filters.type q of None \<Rightarrow> True | Some t \<Rightarrow> t \<in> set [''lost'', ''found'', ''all'']) \<and>
     (case filters.category q of None \<Rightarrow> True | Some c \<Rightarrow> c \<in> set (categories @ [''all''])) \<and>
     (case page q of None \<Rightarrow> True | Some p \<Rightarrow> 1 \<le> p) \<and>
     (case limit q of None \<Rightarrow> True | Some l \<Rightarrow> 1 \<le> l \<and> l \<le> 50)"

text \<open>
  The handler replaces the value \<^verbatim>\<open>'all'\<close> (also the default) of \<^verbatim>\<open>type\<close> and
  \<^verbatim>\<open>category\<close> by an absent filter, and trims \<^verbatim>\<open>location\<close> and \<^verbatim>\<open>search\<close>.
\<close>

definition drop_all :: "string option \<Rightarrow> string option" where
  "drop_all v = (case v of None \<Rightarrow> None | Some x \<Rightarrow> if x \<noteq> ''all'' then Some x else None)"

definition filters_of :: "query \<Rightarrow> filters" where
  "filters_of q =
     \<lparr>filters.type = drop_all (filters.type q),
      filters.category = drop_all (filters.category q),
      filters.location = map_option trim (filters.location q),
      search = map_option trim (search q),
      dateFrom = dateFrom q, dateTo = dateTo q\<rparr>"

record pagination =
  current :: int
  pages :: int
  total :: nat

definition ceil_div :: "nat \<Rightarrow> int \<Rightarrow> int" where
  "ceil_div n d = - ((- int n) div d)"

definition get_items ::
  "engine \<Rightarrow> db \<Rightarrow> query \<Rightarrow> ((oid \<times> item \<times> nat) list \<times> pagination) response" where
  "get_items E s q =
     (if \<not> get_items_valid q then Failure 400 ''Invalid query parameters''
      else
        let p = (case page q of None \<Rightarrow> 1 | Some p \<Rightarrow> p);
            l = (case limit q of None \<Rightarrow> 20 | Some l \<Rightarrow> l)
        in case getFilteredItems E s (filters_of q) of
             None \<Rightarrow> Failure 500 ''Server error fetching items''
           | Some found \<Rightarrow>
              (case countDocuments E s (filters_of q) of
                 None \<Rightarrow> Failure 500 ''Server error fetching items''
               | Some n \<Rightarrow>
                   Json 200 (take (nat l) (drop (nat ((p - 1) * l)) found),
                             \<lparr>current = p, pages = ceil_div n l, total = n\<rparr>)))"

subsection \<open>GET /items/:id\<close>

text \<open>
  \<^verbatim>\<open>this.views += 1\<close> adds in double precision. Below \<open>2^53\<close> the sum is exact. From
  \<open>2^53\<close> to \<open>2^54\<close> the numbers that a double holds are the even ones, and the sum lies
  halfway between two of them; it is rounded to the one whose mantissa is even, a
  multiple of four. From \<open>2^54\<close> on the sum is rounded back to the number itself.
\<close>

definition js_add1 :: "nat \<Rightarrow> nat" where
  "js_add1 n =
     (if n < 9007199254740992 then n + 1
      else if n < 18014398509481984 then (if n mod 4 = 0 then n else n + 2)
      else n)"

definition incrementViews :: "item \<Rightarrow> item" where
  "incrementViews it = it\<lparr>views := js_add1 (views it)\<rparr>"

definition get_item :: "db \<Rightarrow> id_param \<Rightarrow> (oid \<times> item) response \<times> db" where
  "get_item s ident =
     (case ident of
        Malformed \<Rightarrow> (Failure 400 ''Invalid item ID'', s)
      | ObjectId k \<Rightarrow>
         (case findById (items s) k of
            None \<Rightarrow> (Failure 404 ''Item not found'', s)
          | Some it \<Rightarrow>
             if \<not> isActive it then (Failure 404 ''Item not found'', s)
             else
               let it' = incrementViews it
               in (Json 200 (k, it'), save_item s k it')))"

subsection \<open>PUT /items/:id\<close>

text \<open>
  The body is a map from field names to strings; \<open>file\<close> is \<^verbatim>\<open>req.file.path\<close> when an
  image was uploaded. The validators check the five optional fields and trim four of
  them. The handler then copies the fields named in \<^verbatim>\<open>allowedUpdates\<close>, and no other
  key of the body, into the loaded document; the schema's setters trim again.
\<close>

definition length_between :: "nat \<Rightarrow> nat \<Rightarrow> string option \<Rightarrow> bool" where
  "length_between lo hi v \<longleftrightarrow>
     (case v of None \<Rightarrow> True | Some x \<Rightarrow> lo \<le> length (trim x) \<and> length (trim x) \<le> hi)"

definition put_item_valid :: "(string \<rightharpoonup> string) \<Rightarrow> bool" where
  "put_item_valid body \<longleftrightarrow>
     length_between 3 100 (body ''title'') \<and>
     length_between 10 1000 (body ''description'') \<and>
     (case body ''category'' of None \<Rightarrow> True | Some c \<Rightarrow> c \<in> set categories) \<and>
     length_between 3 200 (body ''location'') \<and>
     length_between 0 200 (body ''contactInfo'')"

definition sanitize :: "(string \<rightharpoonup> string) \<Rightarrow> (string \<rightharpoonup> string)" where
  "sanitize body =
     (\<lambda>field. if field \<in> set [''title'', ''description'', ''location'', ''contactInfo'']
               then map_option trim (body field) else body field)"

definition allowedUpdates :: "string list" where
  "allowedUpdates = [''title'', ''description'', ''category'', ''location'', ''contactInfo'']"

text \<open>
  \<^verbatim>\<open>item[field] = value\<close> for the paths the handler assigns. No other path name
  reaches the assignment, so any other name leaves the document as it is.
\<close>

definition set_field :: "string \<Rightarrow> string \<Rightarrow> item \<Rightarrow> item" where
  "set_field field v it =
     (if field = ''title'' then it\<lparr>title := trim v\<rparr>
      else if field = ''description'' then it\<lparr>description := trim v\<rparr>
      else if field = ''category'' then it\<lparr>item.category := v\<rparr>
      else if field = ''location'' then it\<lparr>item.location := trim v\<rparr>
      else if field = ''contactInfo'' then it\<lparr>contactInfo := Some (trim v)\<rparr>
      else it)"

definition apply_updates :: "(string \<rightharpoonup> string) \<Rightarrow> item \<Rightarrow> item" where
  "apply_updates body it =
     fold (\<lambda>field d. case body field of None \<Rightarrow> d | Some v \<Rightarrow> set_field field v d)
       allowedUpdates it"

definition put_item ::
  "db \<Rightarrow> oid \<Rightarrow> id_param \<Rightarrow> (string \<rightharpoonup> string) \<Rightarrow> string option
     \<Rightarrow> (string \<times> oid \<times> item) response \<times> db" where
  "put_item s userId ident body file =
     (if \<not> put_item_valid body then (Failure 400 ''Validation failed'', s)
      else case ident of
        Malformed \<Rightarrow> (Failure 400 ''Invalid item ID'', s)
      | ObjectId k \<Rightarrow>
         (case findById (items s) k of
            None \<Rightarrow> (Failure 404 ''Item not found'', s)
          | Some it \<Rightarrow>
             if \<not> isActive it then (Failure 404 ''Item not found'', s)
             else if item.createdBy it \<noteq> userId
             then (Failure 403 ''Not authorized to update this item'', s)
             else
               let it1 = apply_updates (sanitize body) it;
                   it2 = (case file of None \<Rightarrow> it1 | Some path \<Rightarrow> it1\<lparr>image := Some (trim path)\<rparr>)
               in (Json 200 (''Item updated successfully'', k, it2), save_item s k it2)))"

text \<open>
  The document a successful edit stores, field by field: a field of the body replaces
  the stored one, and an uploaded image replaces the stored image.
\<close>

definition edited :: "(string \<rightharpoonup> string) \<Rightarrow> string option \<Rightarrow> item \<Rightarrow> item" where
  "edited b fl it =
     it\<lparr>title := (case b ''title'' of None \<Rightarrow> title it | Some v \<Rightarrow> trim v),
        description := (case b ''description'' of None \<Rightarrow> description it | Some v \<Rightarrow> trim v),
        item.category := (case b ''category'' of None \<Rightarrow> item.category it | Some v \<Rightarrow> v),
        item.location := (case b ''location'' of None \<Rightarrow> item.location it | Some v \<Rightarrow> trim v),
        contactInfo := (case b ''contactInfo'' of None \<Rightarrow> contactInfo it | Some v \<Rightarrow> Some (trim v)),
        image := (case fl of None \<Rightarrow> image it | Some path \<Rightarrow> Some (trim path))\<rparr>"

subsection \<open>DELETE /items/:id and PATCH /items/:id/resolve\<close>

definition delete_item :: "db \<Rightarrow> oid \<Rightarrow> id_param \<Rightarrow> string response \<times> db" where
  "delete_item s userId ident =
     (case ident of
        Malformed \<Rightarrow> (Failure 400 ''Invalid item ID'', s)
      | ObjectId k \<Rightarrow>
         (case findById (items s) k of
            None \<Rightarrow> (Failure 404 ''Item not found'', s)
          | Some it \<Rightarrow>
             if \<not> isActive it then (Failure 404 ''Item not found'', s)
             else if item.createdBy it \<noteq> userId
             then (Failure 403 ''Not authorized to delete this item'', s)
             else (Json 200 ''Item deleted successfully'',
                   save_item s k (it\<lparr>isActive := False\<rparr>))))"

definition resolve_item :: "db \<Rightarrow> oid \<Rightarrow> id_param \<Rightarrow> (string \<times> oid \<times> item) response \<times> db" where
  "resolve_item s userId ident =
     (case ident of
        Malformed \<Rightarrow> (Failure 400 ''Invalid item ID'', s)
      | ObjectId k \<Rightarrow>
         (case findById (items s) k of
            None \<Rightarrow> (Failure 404 ''Item not found'', s)
          | Some it \<Rightarrow>
             if \<not> isActive it then (Failure 404 ''Item not found'', s)
             else if item.createdBy it \<noteq> userId
             then (Failure 403 ''Not authorized to resolve this item'', s)
             else
               let it' = it\<lparr>item.status := Resolved\<rparr>
               in (Json 200 (''Item marked as resolved'', k, it'), save_item s k it')))"

section \<open>The item page of the client\<close>

text \<open>
  \<^verbatim>\<open>ItemDetails\<close> shows the claim button when \<^verbatim>\<open>canBeClaimed\<close> holds; \<open>user\<close> is the
  signed-in user, if any.
\<close>

definition isOwner :: "oid option \<Rightarrow> item \<Rightarrow> bool" where
  "isOwner user it \<longleftrightarrow> (case user of None \<Rightarrow> False | Some u \<Rightarrow> u = item.createdBy it)"

definition canBeClaimed :: "oid option \<Rightarrow> item \<Rightarrow> bool" where
  "canBeClaimed user it \<longleftrightarrow> item.type it = Found \<and> \<not> isOwner user it"

section \<open>Sequences of requests\<close>

text \<open>
  The requests that write to a claim or to a stored item, each with the arguments of
  its handler. A run handles a list of requests one after the other and records the
  status codes. The remaining routes either read only or, as the creation of an item,
  add a document without touching a stored one.
\<close>

datatype request =
    PostClaim nat oid id_param string
  | PutClaim nat oid id_param string "string option"
  | DeleteClaim oid id_param
  | GetItem id_param
  | PutItem oid id_param "string \<rightharpoonup> string" "string option"
  | DeleteItem oid id_param
  | ResolveItem oid id_param

text \<open>The status code of a response, and whether it reports success.\<close>

fun code :: "'a response \<Rightarrow> nat" where
  "code (Json n _) = n"
| "code (Failure n _) = n"

fun handle :: "db \<Rightarrow> request \<Rightarrow> nat \<times> db" where
  "handle s (PostClaim now u i m) = (let (r, s') = post_claim s now u i m in (code r, s'))"
| "handle s (PutClaim now u k st notes) = (let (r, s') = put_claim s now u k st notes in (code r, s'))"
| "handle s (DeleteClaim u k) = (let (r, s') = delete_claim s u k in (code r, s'))"
| "handle s (GetItem i) = (let (r, s') = get_item s i in (code r, s'))"
| "handle s (PutItem u i body file) = (let (r, s') = put_item s u i body file in (code r, s'))"
| "handle s (DeleteItem u i) = (let (r, s') = delete_item s u i in (code r, s'))"
| "handle s (ResolveItem u i) = (let (r, s') = resolve_item s u i in (code r, s'))"

fun run :: "db \<Rightarrow> request list \<Rightarrow> nat list \<times> db" where
  "run s [] = ([], s)"
| "run s (r # rs) =
     (let (c, s') = handle s r; (cs, s'') = run s' rs in (c # cs, s''))"

text \<open>Whether a request is a resolution of claim \<open>k\<close>, and how many of them in a run succeed.\<close>

fun resolves :: "oid \<Rightarrow> request \<Rightarrow> bool" where
  "resolves k (PutClaim now u (ObjectId j) st notes) = (j = k)"
| "resolves k r = False"

fun successful_resolves :: "oid \<Rightarrow> db \<Rightarrow> request list \<Rightarrow> nat" where
  "successful_resolves k s [] = 0"
| "successful_resolves k s (r # rs) =
     (let (c, s') = handle s r
      in (if resolves k r \<and> c = 200 then 1 else 0) + successful_resolves k s' rs)"

definition terminal :: "db \<Rightarrow> oid \<Rightarrow> bool" where
  "terminal s k \<longleftrightarrow>
     (case findById (claims s) k of None \<Rightarrow> False | Some c \<Rightarrow> claim.status c \<noteq> Pending)"

section \<open>An example store\<close>

text \<open>
  User 1 has reported a found umbrella (item 1) and a lost set of keys (item 2); user 2
  has a pending claim (claim 3) on the umbrella.
\<close>

definition umbrella :: item where
  "umbrella =
     \<lparr>title = ''Black umbrella'', description = ''Found near the main gate'',
      item.type = Found, item.category = ''Accessories'', item.location = ''Main gate'',
      date = 1000, image = None, contactInfo = None, item.createdBy = 1,
      item.status = Active, isActive = True, views = 0, tags = [],
      item.createdAt = 1100\<rparr>"

definition keys :: item where
  "keys =
     \<lparr>title = ''Office keys'', description = ''Three keys on a red ring'',
      item.type = Lost, item.category = ''Keys'', item.location = ''Library'',
      date = 2000, image = None, contactInfo = None, item.createdBy = 1,
      item.status = Active, isActive = True, views = 0, tags = [],
      item.createdAt = 2100\<rparr>"

definition umbrella_claim :: claim where
  "umbrella_claim =
     \<lparr>claim.item = 1, claimedBy = 2, message = ''It has my initials on the handle'',
      claim.status = Pending, adminNotes = None, resolvedAt = None, resolvedBy = None,
      claim.createdAt = 3000\<rparr>"

definition store0 :: db where
  "store0 = \<lparr>items = [(1, umbrella), (2, keys)], claims = [(3, umbrella_claim)], nextId = 4\<rparr>"

text \<open>The store after user 1 has approved the claim at time 4000.\<close>

definition store1 :: db where
  "store1 = snd (put_claim store0 4000 1 (ObjectId 3) ''approved'' None)"

text \<open>
  A listing request as an anonymous viewer sends it, \<^verbatim>\<open>type=lost&category=Keys&page=1&limit=50\<close>,
  and a stand-in for the store's pattern matching, text search and date parsing.
\<close>

definition engine0 :: engine where
  "engine0 =
     \<lparr>regex = (\<lambda>p. Some (\<lambda>t. p = t)), textSearch = (\<lambda>w it. w = title it),
      parseDate = (\<lambda>d. None)\<rparr>"

definition query0 :: query where
  "query0 =
     \<lparr>filters.type = Some ''lost'', filters.category = Some ''Keys'', filters.location = None,
      search = None, dateFrom = None, dateTo = None, page = Some 1, limit = Some 50\<rparr>"

text \<open>
  A store with a third item, a wallet found by user 5, and four claims: the pending
  claim on the umbrella, a pending claim on the wallet, a pending claim whose item 99 is
  not stored, and a rejected claim of user 6 on the keys.
\<close>

definition wallet :: item where
  "wallet =
     \<lparr>title = ''Brown wallet'', description = ''Leather wallet with a bus pass'',
      item.type = Found, item.category = ''Accessories'', item.location = ''Cafeteria'',
      date = 2500, image = None, contactInfo = None, item.createdBy = 5,
      item.status = Active, isActive = True, views = 0, tags = [],
      item.createdAt = 2600\<rparr>"

definition wallet_claim :: claim where
  "wallet_claim =
     \<lparr>claim.item = 7, claimedBy = 2, message = ''The bus pass carries my name'',
      claim.status = Pending, adminNotes = None, resolvedAt = None, resolvedBy = None,
      claim.createdAt = 3100\<rparr>"

definition orphan_claim :: claim where
  "orphan_claim =
     \<lparr>claim.item = 99, claimedBy = 2, message = ''I lost this one last week'',
      claim.status = Pending, adminNotes = None, resolvedAt = None, resolvedBy = None,
      claim.createdAt = 3200\<rparr>"

definition keys_claim :: claim where
  "keys_claim =
     \<lparr>claim.item = 2, claimedBy = 6, message = ''I found keys like these'',
      claim.status = Rejected, adminNotes = Some ''not mine'', resolvedAt = Some 3400,
      resolvedBy = Some 1, claim.createdAt = 3300\<rparr>"

definition store2 :: db where
  "store2 =
     \<lparr>items = [(1, umbrella), (2, keys), (7, wallet)],
      claims = [(3, umbrella_claim), (8, wallet_claim), (9, orphan_claim), (10, keys_claim)],
      nextId = 11\<rparr>"

section \<open>Properties\<close>

lemma findById_save_claim_same:
  "findById (claims (save_claim s k c)) k = Some c"
  by (simp add: findById_def save_claim_def update_Some_unfold)

lemma claims_save_item: "claims (save_item s k it) = claims s"
  by (simp add: save_item_def)

lemma items_save_claim: "items (save_claim s k c) = items s"
  by (simp add: save_claim_def)

lemma findById_save_item_same:
  "findById (items (save_item s k it)) k = Some it"
  by (simp add: findById_def save_item_def update_Some_unfold)

subsection \<open>Trimming\<close>

lemma dropWhile_rev_dropWhile_rev:
  assumes "dropWhile P t = t"
  shows "dropWhile P (rev (dropWhile P (rev t))) = rev (dropWhile P (rev t))"
proof (cases t)
  case Nil
  then show ?thesis by simp
next
  case (Cons x xs)
  have "length (dropWhile P xs) \<le> length xs" by (rule length_dropWhile_le)
  with assms Cons have nx: "\<not> P x" by (auto split: if_splits)
  show ?thesis using Cons nx by (simp add: dropWhile_append)
qed

lemma trim_trim: "trim (trim s) = trim s"
proof -
  let ?t = "dropWhile isSpace s"
  have a: "dropWhile isSpace ?t = ?t" by (simp add: dropWhile_idem)
  have b: "dropWhile isSpace (trim s) = trim s"
    unfolding trim_def using dropWhile_rev_dropWhile_rev[OF a] .
  show ?thesis
    by (simp add: trim_def b[unfolded trim_def] dropWhile_idem)
qed

subsection \<open>Terminal claims stay as they are\<close>

lemma findById_claims_update_other:
  "j \<noteq> k \<Longrightarrow> findById (AList.update j c xs) k = findById xs k"
  by (simp add: findById_def update_conv)

lemma findById_append_Some:
  "findById xs k = Some c \<Longrightarrow> findById (xs @ ys) k = Some c"
  by (simp add: findById_def map_add_Some_iff)

lemma findById_delete_other:
  "j \<noteq> k \<Longrightarrow> findById (AList.delete j xs) k = findById xs k"
  by (simp add: findById_def delete_conv)

lemma approve_status: "claim.status (approve c u now) = Approved"
  by (simp add: approve_def pre_save_def)

lemma reject_status: "claim.status (reject c u n now) = Rejected"
  by (simp add: reject_def pre_save_def)

lemma put_claim_terminal:
  assumes "terminal s k"
  shows "code (fst (put_claim s now u (ObjectId k) st notes)) \<noteq> 200 \<and>
         snd (put_claim s now u (ObjectId k) st notes) = s"
  using assms
  by (auto simp: terminal_def put_claim_def split: option.splits)

lemma findById_update_pending:
  assumes "findById xs k = Some c" "claim.status c \<noteq> Pending"
    and "findById xs j = Some d" "claim.status d = Pending"
  shows "findById (AList.update j e xs) k = Some c"
proof -
  from assms have "j \<noteq> k" by auto
  then show ?thesis using assms(1) by (simp add: findById_claims_update_other)
qed

lemma put_claim_claims_other:
  assumes "findById (claims s) k = Some c" "claim.status c \<noteq> Pending"
  shows "findById (claims (snd (put_claim s now u j st notes))) k = Some c"
  using assms
  by (auto simp: put_claim_def Let_def save_claim_def save_item_def findById_update_pending
      split: option.splits id_param.splits)


lemma post_claim_claims_other:
  assumes "findById (claims s) k = Some c"
  shows "findById (claims (snd (post_claim s now u i m))) k = Some c"
  using assms
  by (auto simp: post_claim_def Let_def insert_claim_def findById_append_Some
      split: option.splits id_param.splits)

lemma delete_claim_claims_other:
  assumes "findById (claims s) k = Some c" "claim.status c \<noteq> Pending"
  shows "findById (claims (snd (delete_claim s u j))) k = Some c"
proof (cases j)
  case Malformed
  then show ?thesis using assms by (simp add: delete_claim_def)
next
  case (ObjectId x)
  show ?thesis
  proof (cases "x = k")
    case True
    then show ?thesis using assms ObjectId by (simp add: delete_claim_def)
  next
    case False
    then show ?thesis using assms ObjectId
      by (auto simp: delete_claim_def findById_delete_other split: option.splits)
  qed
qed

lemma get_item_claims: "claims (snd (get_item s i)) = claims s"
  by (auto simp: get_item_def Let_def save_item_def split: option.splits id_param.splits)

lemma put_item_claims: "claims (snd (put_item s u i body file)) = claims s"
  by (auto simp: put_item_def Let_def save_item_def split: option.splits id_param.splits)

lemma delete_item_claims: "claims (snd (delete_item s u i)) = claims s"
  by (auto simp: delete_item_def save_item_def split: option.splits id_param.splits)

lemma resolve_item_claims: "claims (snd (resolve_item s u i)) = claims s"
  by (auto simp: resolve_item_def Let_def save_item_def split: option.splits id_param.splits)

lemma handle_keeps_terminal_claim:
  assumes "findById (claims s) k = Some c" "claim.status c \<noteq> Pending"
  shows "findById (claims (snd (handle s r))) k = Some c"
proof (cases r)
  case (PostClaim now u i m)
  then show ?thesis using post_claim_claims_other[OF assms(1)]
    by (simp add: split_beta)
next
  case (PutClaim now u j st nts)
  then show ?thesis using put_claim_claims_other[OF assms]
    by (simp add: split_beta)
next
  case (DeleteClaim u j)
  then show ?thesis using delete_claim_claims_other[OF assms]
    by (simp add: split_beta)
next
  case (GetItem i)
  then show ?thesis using assms(1) by (simp add: split_beta get_item_claims)
next
  case (PutItem u i body fl)
  then show ?thesis using assms(1) by (simp add: split_beta put_item_claims)
next
  case (DeleteItem u i)
  then show ?thesis using assms(1) by (simp add: split_beta delete_item_claims)
next
  case (ResolveItem u i)
  then show ?thesis using assms(1) by (simp add: split_beta resolve_item_claims)
qed

lemma run_keeps_terminal_claim:
  assumes "findById (claims s) k = Some c" "claim.status c \<noteq> Pending"
  shows "findById (claims (snd (run s rs))) k = Some c"
  using assms
proof (induction rs arbitrary: s)
  case Nil
  then show ?case by simp
next
  case (Cons r rs)
  have "findById (claims (snd (handle s r))) k = Some c"
    by (rule handle_keeps_terminal_claim[OF Cons.prems])
  from Cons.IH[OF this Cons.prems(2)] show ?case
    by (simp add: split_beta)
qed

lemma handle_resolve_terminal:
  assumes "terminal s k" "resolves k r"
  shows "fst (handle s r) \<noteq> 200"
proof (cases r)
  case (PutClaim now u j st nts)
  with assms(2) have j: "j = ObjectId k" by (cases j) auto
  show ?thesis using put_claim_terminal[OF assms(1), of now u st nts] PutClaim j
    by (simp add: split_beta)
qed (use assms(2) in auto)

lemma handle_terminal:
  assumes "terminal s k"
  shows "terminal (snd (handle s r)) k"
proof -
  from assms obtain c where c: "findById (claims s) k = Some c" "claim.status c \<noteq> Pending"
    by (auto simp: terminal_def split: option.splits)
  from handle_keeps_terminal_claim[OF c] c(2) show ?thesis
    by (simp add: terminal_def)
qed

lemma successful_resolves_terminal:
  assumes "terminal s k"
  shows "successful_resolves k s rs = 0"
  using assms
proof (induction rs arbitrary: s)
  case Nil
  then show ?case by simp
next
  case (Cons r rs)
  have t: "terminal (snd (handle s r)) k" by (rule handle_terminal[OF Cons.prems])
  show ?case
    using Cons.IH[OF t] handle_resolve_terminal[OF Cons.prems, of r]
    by (auto simp: split_beta)
qed

lemma put_claim_success_terminal:
  assumes "code (fst (put_claim s now u (ObjectId k) st notes)) = 200"
  shows "terminal (snd (put_claim s now u (ObjectId k) st notes)) k"
  using assms
  by (auto simp: put_claim_def Let_def terminal_def claims_save_item findById_save_claim_same
      approve_status reject_status split: option.splits if_splits)

lemma handle_resolve_success_terminal:
  assumes "resolves k r" "fst (handle s r) = 200"
  shows "terminal (snd (handle s r)) k"
proof (cases r)
  case (PutClaim now u j st nts)
  with assms(1) have j: "j = ObjectId k" by (cases j) auto
  show ?thesis using put_claim_success_terminal[of s now u k st nts] assms(2) PutClaim j
    by (simp add: split_beta)
qed (use assms(1) in auto)

lemma successful_resolves_le_1: "successful_resolves k s rs \<le> 1"
proof (induction rs arbitrary: s)
  case Nil
  then show ?case by simp
next
  case (Cons r rs)
  show ?case
  proof (cases "resolves k r \<and> fst (handle s r) = 200")
    case True
    then have "terminal (snd (handle s r)) k" by (simp add: handle_resolve_success_terminal)
    then have "successful_resolves k (snd (handle s r)) rs = 0"
      by (rule successful_resolves_terminal)
    then show ?thesis by (simp add: split_beta)
  next
    case False
    then show ?thesis using Cons.IH[of "snd (handle s r)"] by (auto simp: split_beta)
  qed
qed

text \<open>
  C1. A claim that is approved or rejected is terminal. Every resolution request for a
  terminal claim fails and leaves the store as it was, whoever sends it; sent by the
  owner of the claim's item with a valid decision it fails with status 400 and the
  message that the claim has already been processed (the specification's
  \<^verbatim>\<open>InvalidOperation\<close>), so the claim's status, resolver and resolution time are
  unchanged. No sequence of requests changes a terminal claim, and in any sequence of
  requests at most one resolution of a given claim succeeds.
\<close>

theorem resolve_terminal_immutable:
  "(terminal s k \<longrightarrow>
      code (fst (put_claim s now u (ObjectId k) st nts)) \<noteq> 200 \<and>
      snd (put_claim s now u (ObjectId k) st nts) = s) \<and>
   (\<forall>c it. findById (claims s) k = Some c \<and> claim.status c \<noteq> Pending \<and>
      findById (items s) (claim.item c) = Some it \<and> item.createdBy it = u \<and>
      put_claim_valid st nts \<longrightarrow>
      put_claim s now u (ObjectId k) st nts =
        (Failure 400 ''Claim has already been processed'', s)) \<and>
   (\<forall>c. findById (claims s) k = Some c \<and> claim.status c \<noteq> Pending \<longrightarrow>
      findById (claims (snd (run s rs))) k = Some c) \<and>
   successful_resolves k s rs \<le> 1"
proof (intro conjI impI allI)
  assume "terminal s k"
  then show "code (fst (put_claim s now u (ObjectId k) st nts)) \<noteq> 200"
    and "snd (put_claim s now u (ObjectId k) st nts) = s"
    using put_claim_terminal by blast+
next
  fix c it
  assume "findById (claims s) k = Some c \<and> claim.status c \<noteq> Pending \<and>
      findById (items s) (claim.item c) = Some it \<and> item.createdBy it = u \<and>
      put_claim_valid st nts"
  then show "put_claim s now u (ObjectId k) st nts =
        (Failure 400 ''Claim has already been processed'', s)"
    by (simp add: put_claim_def)
next
  fix c
  assume "findById (claims s) k = Some c \<and> claim.status c \<noteq> Pending"
  then show "findById (claims (snd (run s rs))) k = Some c"
    by (simp add: run_keeps_terminal_claim)
next
  show "successful_resolves k s rs \<le> 1" by (rule successful_resolves_le_1)
qed

theorem resolve_terminal_immutable_witness:
  "terminal store1 3 \<and>
   put_claim store1 5000 1 (ObjectId 3) ''rejected'' (Some ''not yours'') =
     (Failure 400 ''Claim has already been processed'', store1) \<and>
   findById (claims (snd (run store1
       [PutClaim 5000 1 (ObjectId 3) ''rejected'' None, DeleteClaim 2 (ObjectId 3),
        PostClaim 6000 2 (ObjectId 1) ''It is my umbrella, I am sure''])))  3 =
     findById (claims store1) 3 \<and>
   successful_resolves 3 store0
     [PutClaim 4000 1 (ObjectId 3) ''approved'' None,
      PutClaim 5000 1 (ObjectId 3) ''rejected'' None] = 1"
proof -
  let ?c = "umbrella_claim\<lparr>claim.status := Approved, resolvedBy := Some 1, resolvedAt := Some 4000\<rparr>"
  let ?it = "umbrella\<lparr>item.status := Resolved\<rparr>"
  let ?rs = "[PutClaim 5000 1 (ObjectId 3) ''rejected'' None, DeleteClaim 2 (ObjectId 3),
        PostClaim 6000 2 (ObjectId 1) ''It is my umbrella, I am sure'']"
  let ?qs = "[PutClaim 4000 1 (ObjectId 3) ''approved'' None,
      PutClaim 5000 1 (ObjectId 3) ''rejected'' None]"
  have t: "terminal store1 3" by code_simp
  have v: "put_claim_valid ''rejected'' (Some ''not yours'')" by code_simp
  have c: "findById (claims store1) 3 = Some ?c" by code_simp
  have i: "findById (items store1) (claim.item ?c) = Some ?it" by code_simp
  have o: "item.createdBy ?it = 1" by code_simp
  have p: "claim.status ?c \<noteq> Pending" by simp
  have one: "1 \<le> successful_resolves 3 store0 ?qs" by code_simp
  note th = resolve_terminal_immutable[of store1 3 5000 1 "''rejected''" "Some ''not yours''" ?rs]
  note th0 = resolve_terminal_immutable[of store0 3 0 0 "[]" None ?qs]
  have a: "put_claim store1 5000 1 (ObjectId 3) ''rejected'' (Some ''not yours'') =
     (Failure 400 ''Claim has already been processed'', store1)"
    using th[THEN conjunct2, THEN conjunct1, rule_format, of ?c ?it] c p i o v by blast
  have b: "findById (claims (snd (run store1 ?rs))) 3 = findById (claims store1) 3"
    using th[THEN conjunct2, THEN conjunct2, THEN conjunct1, rule_format, of ?c] c p by simp
  have d: "successful_resolves 3 store0 ?qs = 1"
    using th0[THEN conjunct2, THEN conjunct2, THEN conjunct2] one by linarith
  from t a b d show ?thesis by blast
qed

subsection \<open>Submitting a claim\<close>

lemma findOne_claim_existing:
  assumes "(k0, c0) \<in> set (claims s)" "claim.item c0 = i" "claimedBy c0 = u"
  shows "findOne_claim s i u \<noteq> None"
  using assms by (auto simp: findOne_claim_def find_None_iff)

text \<open>
  C2, as amended. When a claim of user \<open>u\<close> on item \<open>i\<close> is stored, in whatever status,
  another submission by \<open>u\<close> on \<open>i\<close> creates no claim and leaves the store as it was.
  It fails with status 400 or 404, not 409, by the first check that applies: 400 for a
  message that is not valid; 404 for an item that is not stored, or whose active flag
  is unset, or whose status is not active; 400 for an item of the submitter's own; and
  otherwise 400 with the message that a claim has already been submitted.
\<close>

theorem duplicate_submit_refused:
  assumes "(k0, c0) \<in> set (claims s)" "claim.item c0 = i" "claimedBy c0 = u"
  shows "snd (post_claim s now u (ObjectId i) m) = s \<and>
         code (fst (post_claim s now u (ObjectId i) m)) \<in> {400, 404} \<and>
         (\<not> post_claim_valid m \<longrightarrow>
            fst (post_claim s now u (ObjectId i) m) = Failure 400 ''Validation failed'') \<and>
         (post_claim_valid m \<and> findById (items s) i = None \<longrightarrow>
            fst (post_claim s now u (ObjectId i) m) =
              Failure 404 ''Item not found or no longer available'') \<and>
         (\<forall>it. post_claim_valid m \<and> findById (items s) i = Some it \<and>
               (\<not> isActive it \<or> item.status it \<noteq> Active) \<longrightarrow>
            fst (post_claim s now u (ObjectId i) m) =
              Failure 404 ''Item not found or no longer available'') \<and>
         (\<forall>it. post_claim_valid m \<and> findById (items s) i = Some it \<and> isActive it \<and>
               item.status it = Active \<and> item.createdBy it = u \<longrightarrow>
            fst (post_claim s now u (ObjectId i) m) =
              Failure 400 ''You cannot claim your own item'') \<and>
         (\<forall>it. post_claim_valid m \<and> findById (items s) i = Some it \<and> isActive it \<and>
               item.status it = Active \<and> item.createdBy it \<noteq> u \<longrightarrow>
            fst (post_claim s now u (ObjectId i) m) =
              Failure 400 ''You have already submitted a claim for this item'')"
proof -
  from findOne_claim_existing[OF assms] obtain e where e: "findOne_claim s i u = Some e"
    by auto
  show ?thesis
  proof (cases "post_claim_valid m")
    case False
    then show ?thesis by (simp add: post_claim_def)
  next
    case v: True
    show ?thesis
    proof (cases "findById (items s) i")
      case None
      with v show ?thesis by (simp add: post_claim_def)
    next
      case (Some it)
      show ?thesis
      proof (cases "\<not> isActive it \<or> item.status it \<noteq> Active")
        case True
        with v Some show ?thesis by (auto simp: post_claim_def)
      next
        case av: False
        show ?thesis
        proof (cases "item.createdBy it = u")
          case True
          with v Some av show ?thesis by (simp add: post_claim_def)
        next
          case False
          with v Some av e show ?thesis by (simp add: post_claim_def)
        qed
      qed
    qed
  qed
qed

theorem duplicate_submit_refused_witness:
  "post_claim store0 6000 2 (ObjectId 1) ''It is my umbrella, I am sure'' =
     (Failure 400 ''You have already submitted a claim for this item'', store0) \<and>
   post_claim store0 6000 2 (ObjectId 1) (''This is my umbrella'' @ [CHR 0xA0]) =
     (Failure 400 ''Validation failed'', store0) \<and>
   post_claim store1 6000 2 (ObjectId 1) ''It is my umbrella, I am sure'' =
     (Failure 404 ''Item not found or no longer available'', store1)"
proof -
  let ?m = "''It is my umbrella, I am sure''"
  let ?short = "''This is my umbrella'' @ [CHR 0xA0]"
  let ?c = "umbrella_claim\<lparr>claim.status := Approved, resolvedBy := Some 1, resolvedAt := Some 4000\<rparr>"
  let ?r = "umbrella\<lparr>item.status := Resolved\<rparr>"
  have a: "(3, umbrella_claim) \<in> set (claims store0)" by (simp add: store0_def)
  have b: "claim.item umbrella_claim = 1" "claimedBy umbrella_claim = 2"
    by (simp_all add: umbrella_claim_def)
  have a1: "(3, ?c) \<in> set (claims store1)" by code_simp
  have b1: "claim.item ?c = 1" "claimedBy ?c = 2" by (simp_all add: umbrella_claim_def)
  have v: "post_claim_valid ?m" by code_simp
  have nv: "\<not> post_claim_valid ?short" by code_simp
  have i: "findById (items store0) 1 = Some umbrella" by code_simp
  have i1: "findById (items store1) 1 = Some ?r" by code_simp
  have u: "isActive umbrella" "item.status umbrella = Active" "item.createdBy umbrella \<noteq> 2"
    by (simp_all add: umbrella_def)
  have r: "item.status ?r \<noteq> Active" by simp
  note th = duplicate_submit_refused[OF a b, of 6000 ?m]
  note ts = duplicate_submit_refused[OF a b, of 6000 ?short]
  note t1 = duplicate_submit_refused[OF a1 b1, of 6000 ?m]
  have x: "fst (post_claim store0 6000 2 (ObjectId 1) ?m) =
     Failure 400 ''You have already submitted a claim for this item''"
    using th v i u by blast
  have y: "fst (post_claim store0 6000 2 (ObjectId 1) ?short) = Failure 400 ''Validation failed''"
    using ts nv by blast
  have z: "fst (post_claim store1 6000 2 (ObjectId 1) ?m) =
     Failure 404 ''Item not found or no longer available''"
    using t1 v i1 r by blast
  have sx: "snd (post_claim store0 6000 2 (ObjectId 1) ?m) = store0" using th by blast
  have sy: "snd (post_claim store0 6000 2 (ObjectId 1) ?short) = store0" using ts by blast
  have sz: "snd (post_claim store1 6000 2 (ObjectId 1) ?m) = store1" using t1 by blast
  from x y z sx sy sz show ?thesis by (simp add: prod_eq_iff)
qed

text \<open>
  C2 as stated asks for status 409. In the example store user 2 already has claim 3 on
  item 1; the second submission is answered with 400. Once that claim is approved and
  the item resolved, the second submission is answered with 404, before the handler
  looks for an earlier claim.
\<close>

theorem duplicate_submit_conflict_counterexample:
  "findOne_claim store0 1 2 = Some (3, umbrella_claim) \<and>
   post_claim store0 6000 2 (ObjectId 1) ''It is my umbrella, I am sure'' =
     (Failure 400 ''You have already submitted a claim for this item'', store0) \<and>
   code (fst (post_claim store0 6000 2 (ObjectId 1) ''It is my umbrella, I am sure'')) \<noteq> 409 \<and>
   findOne_claim store1 1 2 \<noteq> None \<and>
   post_claim store1 6000 2 (ObjectId 1) ''It is my umbrella, I am sure'' =
     (Failure 404 ''Item not found or no longer available'', store1)"
  by code_simp

text \<open>
  C4. The item page offers the claim action for found items only (\<open>canBeClaimed\<close> is
  false for a lost item), but the handler of \<^verbatim>\<open>POST /claims/:itemId\<close> never reads the
  item's type: in the example store user 2 submits a claim on the lost keys of user 1,
  and the handler answers 201 and stores a pending claim.
\<close>

theorem submit_on_lost_item:
  "item.type keys = Lost \<and> isActive keys \<and> item.status keys = Active \<and>
   item.createdBy keys \<noteq> 2 \<and> canBeClaimed (Some 2) keys = False \<and>
   post_claim store0 6000 2 (ObjectId 2) ''These are my office keys'' =
     (Json 201 (''Claim submitted successfully'', 4,
        \<lparr>claim.item = 2, claimedBy = 2, message = ''These are my office keys'',
         claim.status = Pending, adminNotes = None, resolvedAt = None, resolvedBy = None,
         claim.createdAt = 6000\<rparr>),
      store0\<lparr>claims := claims store0 @
          [(4, \<lparr>claim.item = 2, claimedBy = 2, message = ''These are my office keys'',
                claim.status = Pending, adminNotes = None, resolvedAt = None,
                resolvedBy = None, claim.createdAt = 6000\<rparr>)],
        nextId := 5\<rparr>)"
  by code_simp

theorem submit_on_lost_item_witness:
  "code (fst (post_claim store0 6000 2 (ObjectId 2) ''These are my office keys'')) = 201 \<and>
   length (claims (snd (post_claim store0 6000 2 (ObjectId 2) ''These are my office keys''))) =
     Suc (length (claims store0))"
  using submit_on_lost_item by simp

subsection \<open>Resolving a pending claim\<close>

lemma findById_update: "findById (AList.update k v xs) = (findById xs)(k \<mapsto> v)"
  by (rule ext) (simp add: findById_def update_conv')

lemma approve_pending:
  "claim.status c = Pending \<Longrightarrow>
   approve c u now = c\<lparr>claim.status := Approved, resolvedBy := Some u, resolvedAt := Some now\<rparr>"
  by (simp add: approve_def pre_save_def)

lemma reject_pending:
  "claim.status c = Pending \<Longrightarrow>
   reject c u n now =
     c\<lparr>claim.status := Rejected, resolvedBy := Some u, resolvedAt := Some now,
       adminNotes := (if n \<noteq> [] then Some (trim n) else adminNotes c)\<rparr>"
  by (simp add: reject_def pre_save_def)

lemma put_claim_approve_pending:
  assumes "findById (claims s) k = Some c" "claim.status c = Pending"
    and "findById (items s) (claim.item c) = Some it" "item.createdBy it = u"
    and "put_claim_valid ''approved'' nts"
  shows "put_claim s now u (ObjectId k) ''approved'' nts =
     (Json 200 (''Claim approved successfully'', k,
        c\<lparr>claim.status := Approved, resolvedBy := Some u, resolvedAt := Some now\<rparr>),
      save_item
        (save_claim s k
           (c\<lparr>claim.status := Approved, resolvedBy := Some u, resolvedAt := Some now\<rparr>))
        (claim.item c) (it\<lparr>item.status := Resolved\<rparr>))"
  using assms by (simp add: put_claim_def Let_def approve_pending)

lemma put_claim_reject_pending:
  assumes "findById (claims s) k = Some c" "claim.status c = Pending"
    and "findById (items s) (claim.item c) = Some it" "item.createdBy it = u"
    and "put_claim_valid ''rejected'' nts"
  shows "put_claim s now u (ObjectId k) ''rejected'' nts =
     (Json 200 (''Claim rejected successfully'', k,
        c\<lparr>claim.status := Rejected, resolvedBy := Some u, resolvedAt := Some now,
          adminNotes := (case nts of None \<Rightarrow> adminNotes c
                         | Some n \<Rightarrow> if trim n \<noteq> [] then Some (trim n) else adminNotes c)\<rparr>),
      save_claim s k
        (c\<lparr>claim.status := Rejected, resolvedBy := Some u, resolvedAt := Some now,
           adminNotes := (case nts of None \<Rightarrow> adminNotes c
                          | Some n \<Rightarrow> if trim n \<noteq> [] then Some (trim n) else adminNotes c)\<rparr>))"
  using assms
  by (cases nts) (simp_all add: put_claim_def Let_def reject_pending trim_trim)

text \<open>
  C3. When the owner of the item resolves a pending claim with a valid body: the
  decision \<^verbatim>\<open>approved\<close> answers 200, stores the claim as approved with the owner as
  resolver and the current time as resolution time, and stores the item with status
  resolved; the decision \<^verbatim>\<open>rejected\<close> answers 200, stores the claim as rejected with
  resolver and resolution time, with the trimmed notes when the body carries notes
  that are not empty after trimming (white space includes the no-break space), and
  leaves every item as it was. No other claim and no other item changes.
\<close>

theorem resolve_pending_effects:
  assumes "findById (claims s) k = Some c" "claim.status c = Pending"
    and "findById (items s) (claim.item c) = Some it" "item.createdBy it = u"
    and "put_claim_valid st nts"
  shows "(st = ''approved'' \<longrightarrow>
           (let c' = c\<lparr>claim.status := Approved, resolvedBy := Some u, resolvedAt := Some now\<rparr>;
                r = put_claim s now u (ObjectId k) st nts
            in fst r = Json 200 (''Claim approved successfully'', k, c') \<and>
               findById (claims (snd r)) = (findById (claims s))(k \<mapsto> c') \<and>
               findById (items (snd r)) =
                 (findById (items s))(claim.item c \<mapsto> it\<lparr>item.status := Resolved\<rparr>))) \<and>
         (st = ''rejected'' \<longrightarrow>
           (let c' = c\<lparr>claim.status := Rejected, resolvedBy := Some u, resolvedAt := Some now,
                        adminNotes := (case nts of None \<Rightarrow> adminNotes c
                                       | Some n \<Rightarrow> if trim n \<noteq> [] then Some (trim n)
                                                  else adminNotes c)\<rparr>;
                r = put_claim s now u (ObjectId k) st nts
            in fst r = Json 200 (''Claim rejected successfully'', k, c') \<and>
               findById (claims (snd r)) = (findById (claims s))(k \<mapsto> c') \<and>
               items (snd r) = items s))"
proof (intro conjI impI)
  assume st: "st = ''approved''"
  show "let c' = c\<lparr>claim.status := Approved, resolvedBy := Some u, resolvedAt := Some now\<rparr>;
            r = put_claim s now u (ObjectId k) st nts
        in fst r = Json 200 (''Claim approved successfully'', k, c') \<and>
           findById (claims (snd r)) = (findById (claims s))(k \<mapsto> c') \<and>
           findById (items (snd r)) =
             (findById (items s))(claim.item c \<mapsto> it\<lparr>item.status := Resolved\<rparr>)"
    using put_claim_approve_pending[OF assms(1-4), of nts now] assms(5) st
    by (simp add: Let_def save_claim_def save_item_def findById_update)
next
  assume st: "st = ''rejected''"
  show "let c' = c\<lparr>claim.status := Rejected, resolvedBy := Some u, resolvedAt := Some now,
                        adminNotes := (case nts of None \<Rightarrow> adminNotes c
                                       | Some n \<Rightarrow> if trim n \<noteq> [] then Some (trim n)
                                                  else adminNotes c)\<rparr>;
            r = put_claim s now u (ObjectId k) st nts
        in fst r = Json 200 (''Claim rejected successfully'', k, c') \<and>
           findById (claims (snd r)) = (findById (claims s))(k \<mapsto> c') \<and>
           items (snd r) = items s"
    using put_claim_reject_pending[OF assms(1-4), of nts now] assms(5) st
    by (simp add: Let_def save_claim_def findById_update)
qed

theorem resolve_pending_effects_witness:
  "fst (put_claim store0 4000 1 (ObjectId 3) ''approved'' None) =
     Json 200 (''Claim approved successfully'', 3,
       umbrella_claim\<lparr>claim.status := Approved, resolvedBy := Some 1, resolvedAt := Some 4000\<rparr>) \<and>
   findById (items (snd (put_claim store0 4000 1 (ObjectId 3) ''approved'' None))) 1 =
     Some (umbrella\<lparr>item.status := Resolved\<rparr>) \<and>
   fst (put_claim store0 4000 1 (ObjectId 3) ''rejected'' (Some '' not yours '')) =
     Json 200 (''Claim rejected successfully'', 3,
       umbrella_claim\<lparr>claim.status := Rejected, resolvedBy := Some 1, resolvedAt := Some 4000,
         adminNotes := Some ''not yours''\<rparr>) \<and>
   items (snd (put_claim store0 4000 1 (ObjectId 3) ''rejected'' (Some '' not yours ''))) =
     items store0 \<and>
   fst (put_claim store0 4000 1 (ObjectId 3) ''rejected'' (Some [CHR 0xA0])) =
     Json 200 (''Claim rejected successfully'', 3,
       umbrella_claim\<lparr>claim.status := Rejected, resolvedBy := Some 1, resolvedAt := Some 4000\<rparr>)"
proof -
  have c: "findById (claims store0) 3 = Some umbrella_claim" by code_simp
  have p: "claim.status umbrella_claim = Pending" by code_simp
  have i: "findById (items store0) (claim.item umbrella_claim) = Some umbrella" by code_simp
  have o: "item.createdBy umbrella = 1" by code_simp
  have v1: "put_claim_valid ''approved'' None" by code_simp
  have v2: "put_claim_valid ''rejected'' (Some '' not yours '')" by code_simp
  have v3: "put_claim_valid ''rejected'' (Some [CHR 0xA0])" by code_simp
  have t: "trim '' not yours '' = ''not yours''" by code_simp
  have t3: "trim [CHR 0xA0] = []" by code_simp
  have n: "adminNotes umbrella_claim = None" by code_simp
  have ci: "claim.item umbrella_claim = 1" by code_simp
  note a = resolve_pending_effects[OF c p i o v1, of 4000, THEN conjunct1, rule_format, OF refl]
  note r = resolve_pending_effects[OF c p i o v2, of 4000, THEN conjunct2, rule_format, OF refl]
  note e = resolve_pending_effects[OF c p i o v3, of 4000, THEN conjunct2, rule_format, OF refl]
  have e': "fst (put_claim store0 4000 1 (ObjectId 3) ''rejected'' (Some [CHR 0xA0])) =
     Json 200 (''Claim rejected successfully'', 3,
       umbrella_claim\<lparr>claim.status := Rejected, resolvedBy := Some 1, resolvedAt := Some 4000\<rparr>)"
    using e by (simp add: Let_def t3 n umbrella_claim_def)
  from a r e' show ?thesis
    by (simp add: Let_def t ci)
qed



subsection \<open>The public listing\<close>

lemma matches_active:
  assumes "matches E f = Some P" "P it"
  shows "isActive it \<and> item.status it = Active"
  using assms by (auto simp: matches_def split: option.splits)

lemma set_sort_desc: "set (sort_desc f xs) = set xs"
  by (simp add: sort_desc_def)

lemma getFilteredItems_active:
  assumes "getFilteredItems E s f = Some found" "(k, it, n) \<in> set found"
  shows "isActive it \<and> item.status it = Active \<and> (k, it) \<in> set (items s)"
  using assms
  by (auto simp: getFilteredItems_def set_sort_desc split: option.splits dest: matches_active)

text \<open>
  C5. Whatever the query parameters, the page and the limit, and however the store
  matches patterns, searches text and parses dates: every item in a successful answer
  of \<^verbatim>\<open>GET /items\<close> is a stored item with its active flag set and status active. So
  resolved, archived and soft-deleted items are never listed.
\<close>

theorem listing_only_active:
  assumes "get_items E s q = Json 200 (found, pg)" "(k, it, n) \<in> set found"
  shows "isActive it \<and> item.status it = Active \<and> (k, it) \<in> set (items s)"
proof -
  from assms(1) obtain all where a: "getFilteredItems E s (filters_of q) = Some all"
    and f: "found = take (nat (case limit q of None \<Rightarrow> 20 | Some l \<Rightarrow> l))
              (drop (nat (((case page q of None \<Rightarrow> 1 | Some p \<Rightarrow> p) - 1) *
                 (case limit q of None \<Rightarrow> 20 | Some l \<Rightarrow> l))) all)"
    by (auto simp: get_items_def Let_def split: if_splits option.splits)
  from assms(2) f have "(k, it, n) \<in> set all"
    by (auto dest: in_set_takeD in_set_dropD)
  with a show ?thesis by (rule getFilteredItems_active)
qed



theorem listing_only_active_witness:
  "get_items engine0 store1 query0 =
     Json 200 ([(2, keys, 0)], \<lparr>current = 1, pages = 1, total = 1\<rparr>) \<and>
   isActive keys \<and> item.status keys = Active"
proof -
  have g: "get_items engine0 store1 query0 =
     Json 200 ([(2, keys, 0)], \<lparr>current = 1, pages = 1, total = 1\<rparr>)"
    by code_simp
  from listing_only_active[OF g, of 2 keys 0] g show ?thesis by simp
qed

subsection \<open>The detail view\<close>

text \<open>
  C6, as amended. \<^verbatim>\<open>GET /items/:id\<close> takes no viewer and reads the active flag only.
  An identifier under which no item is stored is answered with 404, and so is a stored
  item whose active flag is unset; the store is left as it was. A stored item whose
  active flag is set is returned with status 200, whatever its status (so also an
  archived one), after one is added to its view counter in double precision and the
  item is saved: the counter grows by one below \<open>2^53\<close> and stays at \<open>2^53\<close>.
\<close>

theorem detail_view_checks_active_flag_only:
  "(findById (items s) k = None \<longrightarrow>
      get_item s (ObjectId k) = (Failure 404 ''Item not found'', s)) \<and>
   (\<forall>it. findById (items s) k = Some it \<and> \<not> isActive it \<longrightarrow>
      get_item s (ObjectId k) = (Failure 404 ''Item not found'', s)) \<and>
   (\<forall>it. findById (items s) k = Some it \<and> isActive it \<longrightarrow>
      get_item s (ObjectId k) =
        (Json 200 (k, it\<lparr>views := js_add1 (views it)\<rparr>),
         save_item s k (it\<lparr>views := js_add1 (views it)\<rparr>)) \<and>
      (views it < 9007199254740992 \<longrightarrow> js_add1 (views it) = views it + 1) \<and>
      (views it = 9007199254740992 \<longrightarrow> js_add1 (views it) = views it))"
  by (simp add: get_item_def incrementViews_def Let_def js_add1_def)

theorem detail_view_checks_active_flag_only_witness:
  "get_item store0 (ObjectId 99) = (Failure 404 ''Item not found'', store0) \<and>
   get_item (save_item store0 1 (umbrella\<lparr>isActive := False\<rparr>)) (ObjectId 1) =
     (Failure 404 ''Item not found'', save_item store0 1 (umbrella\<lparr>isActive := False\<rparr>)) \<and>
   fst (get_item (save_item store0 1 (umbrella\<lparr>item.status := Resolved\<rparr>)) (ObjectId 1)) =
     Json 200 (1, umbrella\<lparr>item.status := Resolved, views := 1\<rparr>) \<and>
   fst (get_item (save_item store0 1 (umbrella\<lparr>views := 9007199254740992\<rparr>)) (ObjectId 1)) =
     Json 200 (1, umbrella\<lparr>views := 9007199254740992\<rparr>)"
proof -
  let ?r = "umbrella\<lparr>item.status := Resolved\<rparr>"
  let ?d = "umbrella\<lparr>isActive := False\<rparr>"
  let ?m = "umbrella\<lparr>views := 9007199254740992\<rparr>"
  have n: "findById (items store0) 99 = None" by code_simp
  have a: "findById (items (save_item store0 1 ?r)) 1 = Some ?r"
    by (rule findById_save_item_same)
  have b: "findById (items (save_item store0 1 ?d)) 1 = Some ?d"
    by (rule findById_save_item_same)
  have c: "findById (items (save_item store0 1 ?m)) 1 = Some ?m"
    by (rule findById_save_item_same)
  have ia: "isActive ?r" by (simp add: umbrella_def)
  have ib: "\<not> isActive ?d" by simp
  have ic: "isActive ?m" by (simp add: umbrella_def)
  have v: "views ?r = 0" by (simp add: umbrella_def)
  have w: "get_item store0 (ObjectId 99) = (Failure 404 ''Item not found'', store0)"
    using detail_view_checks_active_flag_only[of store0 99] n by blast
  have x: "get_item (save_item store0 1 ?d) (ObjectId 1) =
     (Failure 404 ''Item not found'', save_item store0 1 ?d)"
    using detail_view_checks_active_flag_only[of "save_item store0 1 ?d" 1] b ib by blast
  note ta = detail_view_checks_active_flag_only[of "save_item store0 1 ?r" 1,
      THEN conjunct2, THEN conjunct2, rule_format, of ?r]
  note tc = detail_view_checks_active_flag_only[of "save_item store0 1 ?m" 1,
      THEN conjunct2, THEN conjunct2, rule_format, of ?m]
  have y: "fst (get_item (save_item store0 1 ?r) (ObjectId 1)) =
     Json 200 (1, umbrella\<lparr>item.status := Resolved, views := 1\<rparr>)"
    using ta a ia v by simp
  have z: "fst (get_item (save_item store0 1 ?m) (ObjectId 1)) = Json 200 (1, ?m)"
    using tc c ic by simp
  from w x y z show ?thesis by simp
qed

text \<open>
  C6 as stated says that an archived item with its active flag set is not returned. The
  umbrella, stored as archived, is returned with status 200 and one view.
\<close>

theorem detail_view_archived_counterexample:
  "item.status (umbrella\<lparr>item.status := Archived\<rparr>) = Archived \<and>
   isActive (umbrella\<lparr>item.status := Archived\<rparr>) \<and>
   findById (items (save_item store0 1 (umbrella\<lparr>item.status := Archived\<rparr>))) 1 =
     Some (umbrella\<lparr>item.status := Archived\<rparr>) \<and>
   fst (get_item (save_item store0 1 (umbrella\<lparr>item.status := Archived\<rparr>)) (ObjectId 1)) =
     Json 200 (1, umbrella\<lparr>item.status := Archived, views := 1\<rparr>)"
  by (simp add: get_item_def incrementViews_def js_add1_def findById_def save_item_def
      store0_def umbrella_def Let_def)

subsection \<open>Pending claims for an owner\<close>

lemma set_getPendingClaimsForUser:
  "set (getPendingClaimsForUser s u) =
     (\<lambda>(k, c). (k, c, populate_item_match s u c)) `
       {(k, c). (k, c) \<in> set (claims s) \<and> claim.status c = Pending}"
  by (auto simp: getPendingClaimsForUser_def sort_desc_def)

lemma populate_item_match_Some:
  "populate_item_match s u c = Some p \<longleftrightarrow>
     (\<exists>it. findById (items s) (claim.item c) = Some it \<and> item.createdBy it = u \<and>
           p = select_summary (claim.item c) it)"
  by (auto simp: populate_item_match_def split: option.splits)

text \<open>
  C7. \<^verbatim>\<open>GET /claims/pending\<close> always answers 200 and leaves the store as it was. Every
  claim in the answer is a stored pending claim whose item is stored and was created by
  the requester, and it carries that item's summary; every stored pending claim on an
  item of the requester is in the answer; and a claim whose item is not stored, or was
  created by somebody else, is not in the answer.
\<close>

theorem pending_for_owner:
  "\<exists>body. get_pending s u = (Json 200 body, s) \<and>
     (\<forall>(k, c, p) \<in> set body.
         (k, c) \<in> set (claims s) \<and> claim.status c = Pending \<and>
         (\<exists>it. findById (items s) (claim.item c) = Some it \<and> item.createdBy it = u \<and>
               p = Some (select_summary (claim.item c) it))) \<and>
     (\<forall>(k, c) \<in> set (claims s).
         claim.status c = Pending \<and>
         (\<exists>it. findById (items s) (claim.item c) = Some it \<and> item.createdBy it = u) \<longrightarrow>
         (\<exists>p. (k, c, p) \<in> set body)) \<and>
     (\<forall>(k, c) \<in> set (claims s).
         (findById (items s) (claim.item c) = None \<or>
          (\<exists>it. findById (items s) (claim.item c) = Some it \<and> item.createdBy it \<noteq> u)) \<longrightarrow>
         (\<forall>p. (k, c, p) \<notin> set body))"
proof -
  let ?body = "filter (\<lambda>(k, c, p). p \<noteq> None) (getPendingClaimsForUser s u)"
  have g: "get_pending s u = (Json 200 ?body, s)"
    by (simp add: get_pending_def Let_def)
  have m: "(k, c, p) \<in> set ?body \<longleftrightarrow>
      (k, c) \<in> set (claims s) \<and> claim.status c = Pending \<and>
      (\<exists>it. findById (items s) (claim.item c) = Some it \<and> item.createdBy it = u \<and>
            p = Some (select_summary (claim.item c) it))" for k c p
  proof -
    have m1: "(k, c, p) \<in> set (getPendingClaimsForUser s u) \<longleftrightarrow>
        (k, c) \<in> set (claims s) \<and> claim.status c = Pending \<and> p = populate_item_match s u c"
      by (auto simp: set_getPendingClaimsForUser)
    have m2: "(p \<noteq> None \<and> p = populate_item_match s u c) \<longleftrightarrow>
        (\<exists>it. findById (items s) (claim.item c) = Some it \<and> item.createdBy it = u \<and>
              p = Some (select_summary (claim.item c) it))"
      by (auto simp: populate_item_match_def select_summary_def split: option.splits)
    have "(k, c, p) \<in> set ?body \<longleftrightarrow> (k, c, p) \<in> set (getPendingClaimsForUser s u) \<and> p \<noteq> None"
      by simp
    with m1 m2 show ?thesis by blast
  qed
  show ?thesis
    by (rule exI[of _ ?body]) (use g m in fastforce)
qed


theorem pending_for_owner_witness:
  "get_pending store2 1 =
     (Json 200 [(3, umbrella_claim, Some (select_summary 1 umbrella))], store2) \<and>
   claim.status umbrella_claim = Pending \<and>
   findById (items store2) (claim.item umbrella_claim) = Some umbrella \<and>
   item.createdBy umbrella = 1 \<and>
   (8, wallet_claim) \<in> set (claims store2) \<and> claim.status wallet_claim = Pending \<and>
   (9, orphan_claim) \<in> set (claims store2) \<and> claim.status orphan_claim = Pending"
proof -
  have g: "get_pending store2 1 =
     (Json 200 [(3, umbrella_claim, Some (select_summary 1 umbrella))], store2)"
    by code_simp
  from pending_for_owner[of store2 1] obtain body where
    b: "get_pending store2 1 = (Json 200 body, store2)" and
    a: "\<forall>(k, c, p) \<in> set body.
         (k, c) \<in> set (claims store2) \<and> claim.status c = Pending \<and>
         (\<exists>it. findById (items store2) (claim.item c) = Some it \<and> item.createdBy it = 1 \<and>
               p = Some (select_summary (claim.item c) it))"
    by blast
  from b g have "body = [(3, umbrella_claim, Some (select_summary 1 umbrella))]" by simp
  with a have "claim.status umbrella_claim = Pending \<and>
      (\<exists>it. findById (items store2) (claim.item umbrella_claim) = Some it \<and>
            item.createdBy it = 1)"
    by auto
  moreover have "findById (items store2) (claim.item umbrella_claim) = Some umbrella"
    by code_simp
  moreover have "(8, wallet_claim) \<in> set (claims store2)" "(9, orphan_claim) \<in> set (claims store2)"
    by (simp_all add: store2_def)
  moreover have "claim.status wallet_claim = Pending" "claim.status orphan_claim = Pending"
    by (simp_all add: wallet_claim_def orphan_claim_def)
  ultimately show ?thesis using g by auto
qed

subsection \<open>Deleting a claim\<close>

text \<open>
  C8. \<^verbatim>\<open>DELETE /claims/:claimId\<close> answers 404 when no claim has the identifier, 403
  when the claim is somebody else's, and 400 when it is the requester's but not pending
  (the specification's \<^verbatim>\<open>InvalidOperation\<close>); in these cases, and whenever the answer is
  not 200, the store is left as it was. For a pending claim of the requester it answers
  200 and removes the claim's document, leaving every other claim and every item as
  they were.
\<close>

theorem delete_claim_cases:
  "(findById (claims s) k = None \<longrightarrow>
      delete_claim s u (ObjectId k) = (Failure 404 ''Claim not found'', s)) \<and>
   (\<forall>c. findById (claims s) k = Some c \<and> claimedBy c \<noteq> u \<longrightarrow>
      delete_claim s u (ObjectId k) = (Failure 403 ''Not authorized to delete this claim'', s)) \<and>
   (\<forall>c. findById (claims s) k = Some c \<and> claimedBy c = u \<and> claim.status c \<noteq> Pending \<longrightarrow>
      delete_claim s u (ObjectId k) = (Failure 400 ''Cannot delete processed claims'', s)) \<and>
   (\<forall>c. findById (claims s) k = Some c \<and> claimedBy c = u \<and> claim.status c = Pending \<longrightarrow>
      fst (delete_claim s u (ObjectId k)) = Json 200 ''Claim deleted successfully'' \<and>
      findById (claims (snd (delete_claim s u (ObjectId k)))) =
        (findById (claims s))(k := None) \<and>
      items (snd (delete_claim s u (ObjectId k))) = items s) \<and>
   (code (fst (delete_claim s u (ObjectId k))) \<noteq> 200 \<longrightarrow>
      snd (delete_claim s u (ObjectId k)) = s)"
proof -
  have d: "findById (AList.delete k xs) = (findById xs)(k := None)" for xs :: "(oid \<times> claim) list"
    by (rule ext) (simp add: findById_def delete_conv)
  show ?thesis
    by (auto simp: delete_claim_def d split: option.splits)
qed

theorem delete_claim_cases_witness:
  "delete_claim store2 2 (ObjectId 4) = (Failure 404 ''Claim not found'', store2) \<and>
   delete_claim store2 1 (ObjectId 3) =
     (Failure 403 ''Not authorized to delete this claim'', store2) \<and>
   delete_claim store2 6 (ObjectId 10) =
     (Failure 400 ''Cannot delete processed claims'', store2) \<and>
   fst (delete_claim store2 2 (ObjectId 3)) = Json 200 ''Claim deleted successfully'' \<and>
   findById (claims (snd (delete_claim store2 2 (ObjectId 3)))) 3 = None \<and>
   findById (claims (snd (delete_claim store2 2 (ObjectId 3)))) 8 = Some wallet_claim"
proof -
  have n: "findById (claims store2) 4 = None" by code_simp
  have c3: "findById (claims store2) 3 = Some umbrella_claim" by code_simp
  have c8: "findById (claims store2) 8 = Some wallet_claim" by code_simp
  have c10: "findById (claims store2) 10 = Some keys_claim" by code_simp
  have u: "claimedBy umbrella_claim = 2" "claim.status umbrella_claim = Pending"
    by (simp_all add: umbrella_claim_def)
  have r: "claimedBy keys_claim = 6" "claim.status keys_claim \<noteq> Pending"
    by (simp_all add: keys_claim_def)
  have a: "delete_claim store2 2 (ObjectId 4) = (Failure 404 ''Claim not found'', store2)"
    using delete_claim_cases[of store2 4 2] n by blast
  have b: "delete_claim store2 1 (ObjectId 3) =
     (Failure 403 ''Not authorized to delete this claim'', store2)"
    using delete_claim_cases[of store2 3 1, THEN conjunct2, THEN conjunct1, rule_format,
        of umbrella_claim] c3 u by simp
  have c: "delete_claim store2 6 (ObjectId 10) =
     (Failure 400 ''Cannot delete processed claims'', store2)"
    using delete_claim_cases[of store2 10 6, THEN conjunct2, THEN conjunct2, THEN conjunct1,
        rule_format, of keys_claim] c10 r by simp
  have d: "fst (delete_claim store2 2 (ObjectId 3)) = Json 200 ''Claim deleted successfully'' \<and>
      findById (claims (snd (delete_claim store2 2 (ObjectId 3)))) =
        (findById (claims store2))(3 := None)"
    using delete_claim_cases[of store2 3 2, THEN conjunct2, THEN conjunct2, THEN conjunct2,
        THEN conjunct1, rule_format, of umbrella_claim] c3 u by simp
  from a b c d c8 show ?thesis by simp
qed

subsection \<open>Editing an item\<close>

lemma apply_updates_eq:
  "apply_updates b it =
     it\<lparr>title := (case b ''title'' of None \<Rightarrow> title it | Some v \<Rightarrow> trim v),
        description := (case b ''description'' of None \<Rightarrow> description it | Some v \<Rightarrow> trim v),
        item.category := (case b ''category'' of None \<Rightarrow> item.category it | Some v \<Rightarrow> v),
        item.location := (case b ''location'' of None \<Rightarrow> item.location it | Some v \<Rightarrow> trim v),
        contactInfo := (case b ''contactInfo'' of None \<Rightarrow> contactInfo it | Some v \<Rightarrow> Some (trim v))\<rparr>"
  by (simp add: apply_updates_def allowedUpdates_def set_field_def split: option.splits)


lemma sanitize_apply_updates:
  "apply_updates (sanitize b) it =
     it\<lparr>title := (case b ''title'' of None \<Rightarrow> title it | Some v \<Rightarrow> trim v),
        description := (case b ''description'' of None \<Rightarrow> description it | Some v \<Rightarrow> trim v),
        item.category := (case b ''category'' of None \<Rightarrow> item.category it | Some v \<Rightarrow> v),
        item.location := (case b ''location'' of None \<Rightarrow> item.location it | Some v \<Rightarrow> trim v),
        contactInfo := (case b ''contactInfo'' of None \<Rightarrow> contactInfo it | Some v \<Rightarrow> Some (trim v))\<rparr>"
  by (simp add: apply_updates_eq sanitize_def trim_trim split: option.splits)

lemma put_item_edited:
  "(case fl of None \<Rightarrow> apply_updates (sanitize body) it
    | Some path \<Rightarrow> (apply_updates (sanitize body) it)\<lparr>image := Some (trim path)\<rparr>) =
   edited body fl it"
  by (cases fl) (simp_all add: sanitize_apply_updates edited_def)

lemma edited_frame:
  "item.status (edited b fl it) = item.status it \<and> item.type (edited b fl it) = item.type it \<and>
   date (edited b fl it) = date it \<and> isActive (edited b fl it) = isActive it \<and>
   views (edited b fl it) = views it \<and> item.createdBy (edited b fl it) = item.createdBy it \<and>
   tags (edited b fl it) = tags it \<and> item.createdAt (edited b fl it) = item.createdAt it"
  by (simp add: edited_def)

lemma put_item_owner:
  assumes "findById (items s) k = Some it" "isActive it" "item.createdBy it = u"
    and "put_item_valid body"
  shows "put_item s u (ObjectId k) body fl =
        (Json 200 (''Item updated successfully'', k, edited body fl it),
         save_item s k (edited body fl it))"
  using assms by (simp add: put_item_def Let_def put_item_edited)

lemma put_item_store:
  "snd (put_item s u i body fl) = s \<or>
   (\<exists>k it. i = ObjectId k \<and> findById (items s) k = Some it \<and>
      snd (put_item s u i body fl) = save_item s k (edited body fl it))"
proof (cases i)
  case Malformed
  then show ?thesis by (simp add: put_item_def)
next
  case (ObjectId k)
  show ?thesis
  proof (cases "findById (items s) k")
    case None
    with ObjectId show ?thesis by (simp add: put_item_def)
  next
    case (Some it)
    show ?thesis
    proof (cases "isActive it \<and> item.createdBy it = u \<and> put_item_valid body")
      case True
      with Some ObjectId show ?thesis by (simp add: put_item_owner)
    next
      case False
      with Some ObjectId show ?thesis by (auto simp: put_item_def)
    qed
  qed
qed

text \<open>
  C9. Whatever the body of \<^verbatim>\<open>PUT /items/:id\<close> carries (so also a body with the keys
  \<^verbatim>\<open>status\<close> or \<^verbatim>\<open>isActive\<close>), and whether the request succeeds or not: every stored
  item keeps its status, type, date, active flag, views, owner, tags and creation time,
  and no claim changes. An edit by the owner of an item whose active flag is set, with
  a valid body, answers 200 and stores the item with the title, description, category,
  location and contact text of the body and the uploaded image, where given. So an edit
  never turns a resolved item active again.
\<close>

theorem edit_frame:
  "(\<forall>x. findById (items s) j = Some x \<longrightarrow>
      (\<exists>x'. findById (items (snd (put_item s u i body fl))) j = Some x' \<and>
         item.status x' = item.status x \<and> item.type x' = item.type x \<and> date x' = date x \<and>
         isActive x' = isActive x \<and> views x' = views x \<and>
         item.createdBy x' = item.createdBy x \<and> tags x' = tags x \<and>
         item.createdAt x' = item.createdAt x)) \<and>
   claims (snd (put_item s u i body fl)) = claims s \<and>
   (\<forall>it. findById (items s) k = Some it \<and> isActive it \<and> item.createdBy it = u \<and>
      put_item_valid body \<longrightarrow>
      put_item s u (ObjectId k) body fl =
        (Json 200 (''Item updated successfully'', k, edited body fl it),
         save_item s k (edited body fl it)))"
proof (intro conjI allI impI)
  fix x assume x: "findById (items s) j = Some x"
  let ?s' = "snd (put_item s u i body fl)"
  from put_item_store[of s u i body fl]
  show "\<exists>x'. findById (items ?s') j = Some x' \<and>
         item.status x' = item.status x \<and> item.type x' = item.type x \<and> date x' = date x \<and>
         isActive x' = isActive x \<and> views x' = views x \<and>
         item.createdBy x' = item.createdBy x \<and> tags x' = tags x \<and>
         item.createdAt x' = item.createdAt x"
  proof
    assume "?s' = s"
    with x show ?thesis by simp
  next
    assume "\<exists>k it. i = ObjectId k \<and> findById (items s) k = Some it \<and>
      ?s' = save_item s k (edited body fl it)"
    then obtain k it where it: "findById (items s) k = Some it"
      and s': "?s' = save_item s k (edited body fl it)" by blast
    show ?thesis
    proof (cases "j = k")
      case True
      with x it have "x = it" by simp
      with True s' edited_frame[of body fl it] show ?thesis
        by (simp add: save_item_def findById_update)
    next
      case False
      with x s' show ?thesis by (simp add: save_item_def findById_update)
    qed
  qed
next
  show "claims (snd (put_item s u i body fl)) = claims s" by (rule put_item_claims)
next
  fix it
  assume "findById (items s) k = Some it \<and> isActive it \<and> item.createdBy it = u \<and>
      put_item_valid body"
  then show "put_item s u (ObjectId k) body fl =
        (Json 200 (''Item updated successfully'', k, edited body fl it),
         save_item s k (edited body fl it))"
    by (simp add: put_item_owner)
qed

theorem edit_frame_witness:
  "fst (put_item store1 1 (ObjectId 1)
          [''title'' \<mapsto> ''  Blue umbrella '', ''status'' \<mapsto> ''active'', ''isActive'' \<mapsto> ''false'']
          None) =
     Json 200 (''Item updated successfully'', 1,
       umbrella\<lparr>title := ''Blue umbrella'', item.status := Resolved\<rparr>) \<and>
   item.status (umbrella\<lparr>title := ''Blue umbrella'', item.status := Resolved\<rparr>) = Resolved"
proof -
  let ?b = "[''title'' \<mapsto> ''  Blue umbrella '', ''status'' \<mapsto> ''active'', ''isActive'' \<mapsto> ''false'']"
  let ?it = "umbrella\<lparr>item.status := Resolved\<rparr>"
  have i: "findById (items store1) 1 = Some ?it" by code_simp
  have a: "isActive ?it" "item.createdBy ?it = 1" by (simp_all add: umbrella_def)
  have t: "trim ''  Blue umbrella '' = ''Blue umbrella''" by code_simp
  have v: "put_item_valid ?b" by (simp add: put_item_valid_def length_between_def t)
  have e: "edited ?b None ?it = umbrella\<lparr>title := ''Blue umbrella'', item.status := Resolved\<rparr>"
    by (simp add: edited_def t)
  from edit_frame[of store1 1 1 "ObjectId 1" ?b None 1, THEN conjunct2, THEN conjunct2,
      rule_format, of ?it] i a v
  have "put_item store1 1 (ObjectId 1) ?b None =
        (Json 200 (''Item updated successfully'', 1, edited ?b None ?it),
         save_item store1 1 (edited ?b None ?it))" by blast
  then show ?thesis by (simp add: e)
qed

end
